theory Spec2Isabelle
  imports Complex_Main "HOL-Library.Log_Nat"
begin

section \<open>Python values\<close>

text \<open>A Python \<open>str\<close> is a sequence of Unicode code points.\<close>

type_synonym pystr = "nat list"

definition str_of :: "string \<Rightarrow> pystr" where
  "str_of s = map of_char s"

text \<open>The code points for which \<open>str.isspace\<close> holds; \<open>strip()\<close> and \<open>split()\<close> use them.\<close>

definition is_space :: "nat \<Rightarrow> bool" where
  "is_space c \<longleftrightarrow>
     (9 \<le> c \<and> c \<le> 13) \<or> (28 \<le> c \<and> c \<le> 32) \<or> c = 133 \<or> c = 160 \<or> c = 5760 \<or>
     (8192 \<le> c \<and> c \<le> 8202) \<or> c = 8232 \<or> c = 8233 \<or> c = 8239 \<or> c = 8287 \<or> c = 12288"

definition strip :: "pystr \<Rightarrow> pystr" where
  "strip s = rev (dropWhile is_space (rev (dropWhile is_space s)))"

text \<open>\<open>text.split()\<close>: the maximal runs of non-space code points; \<open>cur\<close> is the run being
  read, reversed.\<close>

fun split_from :: "pystr \<Rightarrow> pystr \<Rightarrow> pystr list" where
  "split_from cur [] = (if cur = [] then [] else [rev cur])"
| "split_from cur (c # cs) =
     (if is_space c then (if cur = [] then split_from [] cs else rev cur # split_from [] cs)
      else split_from (c # cur) cs)"

definition split :: "pystr \<Rightarrow> pystr list" where
  "split s = split_from [] s"

text \<open>\<open>sep.join(ws)\<close>.\<close>

fun join :: "pystr \<Rightarrow> pystr list \<Rightarrow> pystr" where
  "join sep [] = []"
| "join sep [w] = w"
| "join sep (w # v # ws) = w @ sep @ join sep (v # ws)"

subsection \<open>Floats\<close>

text \<open>
  A Python float is an IEEE 754 binary64 number, modelled by its value, a rational.  An
  arithmetic operation returns the exact result rounded to the nearest double, ties to the
  even significand.  Infinities, NaN and overflow are not modelled: the operands of this
  program stay far below the largest double.
\<close>

definition round_half_even :: "rat \<Rightarrow> int" where
  "round_half_even x =
     (let f = \<lfloor>x\<rfloor>; d = x - of_int f
      in if d < 1 / 2 then f else if 1 / 2 < d then f + 1 else if even f then f else f + 1)"

text \<open>For \<open>x > 0\<close>, the \<open>k\<close> with \<open>2 ^ k \<le> x < 2 ^ (k + 1)\<close>.\<close>

definition ilog2 :: "rat \<Rightarrow> int" where
  "ilog2 x =
     (let (a, b) = quotient_of x; k = bitlen a - bitlen b
      in if 2 powi k \<le> x then k else k - 1)"

text \<open>
  The distance between neighbouring doubles at \<open>x \<noteq> 0\<close>: 53 significant bits, and the
  subnormal spacing \<open>2 ^ -1074\<close> at the bottom.
\<close>

definition ulp :: "rat \<Rightarrow> rat" where
  "ulp x = 2 powi (max (ilog2 \<bar>x\<bar> - 52) (- 1074))"

text \<open>The double nearest to \<open>x\<close>; a float literal such as \<open>0.1\<close> is \<open>double (1 / 10)\<close>.\<close>

definition double :: "rat \<Rightarrow> rat" where
  "double x =
     (if x = 0 then 0 else sgn x * (of_int (round_half_even (\<bar>x\<bar> / ulp x)) * ulp x))"

definition fmul :: "rat \<Rightarrow> rat \<Rightarrow> rat" where
  "fmul x y = double (x * y)"

definition fsub :: "rat \<Rightarrow> rat \<Rightarrow> rat" where
  "fsub x y = double (x - y)"

definition fdiv :: "rat \<Rightarrow> rat \<Rightarrow> rat" where
  "fdiv x y = double (x / y)"

text \<open>
  \<open>round(x, n)\<close> for a float \<open>x\<close> and \<open>n \<ge> 0\<close>: the value of \<open>x\<close> is rounded at \<open>n\<close>
  decimals, ties to the even neighbour, and the result is the double nearest to that decimal.
\<close>

definition py_round :: "rat \<Rightarrow> nat \<Rightarrow> rat" where
  "py_round x n = double (of_int (round_half_even (x * 10 ^ n)) / 10 ^ n)"


section \<open>model.py: the sentiment analyzer\<close>

datatype sentiment = Positive | Negative | Neutral

text \<open>
  The result dictionary.  The keys \<open>sentiment\<close> and \<open>confidence\<close> are in every result; a key
  that a result does not have is \<open>None\<close>.
\<close>

record result =
  sentiment :: sentiment
  confidence :: rat
  polarity :: "rat option"
  subjectivity :: "rat option"
  score :: "rat option"
  model :: "string option"
  error :: "string option"

text \<open>\<open>TextBlob(text).sentiment\<close>: polarity and subjectivity of a text.\<close>

type_synonym textblob = "pystr \<Rightarrow> rat \<times> rat"

text \<open>
  A loaded pipeline: \<open>transformer_model(text)[0]\<close> as label and score; \<open>None\<close> when the call,
  or reading its result, raises an \<open>Exception\<close>.
\<close>

type_synonym pipeline = "pystr \<Rightarrow> (pystr \<times> rat) option"

text \<open>
  What the module finds when it is imported and when a model is loaded: the TextBlob
  library, whether \<open>import transformers\<close> succeeded, and what \<open>pipeline(...)\<close> gives
  (\<open>None\<close> when loading raises).
\<close>

record env =
  TextBlob :: textblob
  TRANSFORMERS_AVAILABLE :: bool
  load_pipeline :: "pipeline option"

record SentimentAnalyzer =
  model_type :: pystr
  transformer_model :: "pipeline option"

definition init :: "env \<Rightarrow> pystr \<Rightarrow> SentimentAnalyzer" where
  "init e mt =
     (if mt = str_of ''transformers'' then
        (if TRANSFORMERS_AVAILABLE e then
           (case load_pipeline e of
              Some p \<Rightarrow> \<lparr>model_type = mt, transformer_model = Some p\<rparr>
            | None \<Rightarrow> \<lparr>model_type = str_of ''textblob'', transformer_model = None\<rparr>)
         else \<lparr>model_type = str_of ''textblob'', transformer_model = None\<rparr>)
      else \<lparr>model_type = mt, transformer_model = None\<rparr>)"

definition analyze_with_textblob :: "env \<Rightarrow> pystr \<Rightarrow> result" where
  "analyze_with_textblob e text =
     (let (p, s) = TextBlob e text;
          (sent, conf) =
            (if p > double (1 / 10) then (Positive, min (fmul p 100) 100)
             else if p < - double (1 / 10) then (Negative, min (fmul \<bar>p\<bar> 100) 100)
             else (Neutral, fsub 100 (fmul \<bar>p\<bar> 100)))
      in \<lparr>sentiment = sent, confidence = py_round conf 2,
          polarity = Some (py_round p 3), subjectivity = Some (py_round s 3),
          score = None, model = Some ''TextBlob'', error = None\<rparr>)"

text \<open>The text the \<open>try\<close> block works on: at most 512 words.\<close>

definition truncate_words :: "pystr \<Rightarrow> pystr" where
  "truncate_words text =
     (if length (split text) > 512 then join (str_of '' '') (take 512 (split text)) else text)"

definition analyze_with_transformers :: "env \<Rightarrow> SentimentAnalyzer \<Rightarrow> pystr \<Rightarrow> result" where
  "analyze_with_transformers e self text =
     (case transformer_model self of
        None \<Rightarrow> analyze_with_textblob e text
      | Some m \<Rightarrow>
          (let text' = truncate_words text
           in case m text' of
                None \<Rightarrow> analyze_with_textblob e text'
              | Some (label, sc) \<Rightarrow>
                  \<lparr>sentiment =
                     (if label = str_of ''POSITIVE'' then Positive
                      else if label = str_of ''NEGATIVE'' then Negative else Neutral),
                   confidence = py_round (fmul sc 100) 2,
                   polarity = None, subjectivity = None,
                   score = Some (py_round sc 3), model = Some ''DistilBERT'', error = None\<rparr>))"

definition empty_result :: result where
  "empty_result =
     \<lparr>sentiment = Neutral, confidence = 0, polarity = None, subjectivity = None,
      score = None, model = None, error = Some ''Empty text provided''\<rparr>"

definition analyze :: "env \<Rightarrow> SentimentAnalyzer \<Rightarrow> pystr \<Rightarrow> result" where
  "analyze e self text =
     (if text = [] \<or> strip text = [] then empty_result
      else if model_type self = str_of ''transformers'' then analyze_with_transformers e self text
      else analyze_with_textblob e text)"

definition analyze_sentiment :: "env \<Rightarrow> pystr \<Rightarrow> pystr \<Rightarrow> result" where
  "analyze_sentiment e text mt = analyze e (init e mt) text"




section \<open>main.py: the endpoints and the analysis history\<close>

text \<open>An item of \<open>analysis_history\<close>.\<close>

record entry =
  entry_text :: pystr
  entry_sentiment :: sentiment
  entry_confidence :: rat
  entry_timestamp :: pystr

type_synonym ledger = "entry list"

text \<open>\<open>xs[i:]\<close>: a negative start counts from the end, and a start out of range is clipped.\<close>

definition slice_from :: "int \<Rightarrow> 'a list \<Rightarrow> 'a list" where
  "slice_from i xs =
     (let n = int (length xs);
          start = (if i < 0 then max (i + n) 0 else min i n)
      in drop (nat start) xs)"

text \<open>
  A value of the request's JSON object is a string or something else; \<open>.strip()\<close> and
  \<open>.lower()\<close> exist on strings only.  The body \<open>request.get_json()\<close> gives is falsy, an
  object with its \<open>text\<close> and \<open>model\<close> values (\<open>None\<close>: key absent), or some other value.
\<close>

datatype jval = JStr pystr | JOther

datatype body = Falsy | Dict "jval option" "jval option" | NotDict

type_synonym exn = string

datatype response =
    Ok200 result pystr pystr
  | BadRequest400 string string
  | Error500 exn

text \<open>\<open>data.get(key, default)\<close> followed by a \<open>str\<close> method.\<close>

definition get_str :: "jval option \<Rightarrow> pystr \<Rightarrow> exn + pystr" where
  "get_str v dflt =
     (case v of None \<Rightarrow> Inr dflt | Some (JStr s) \<Rightarrow> Inr s | Some JOther \<Rightarrow> Inl ''AttributeError'')"

text \<open>
  \<open>.lower()\<close>, on the letters \<open>A\<close> to \<open>Z\<close>.  The result is only compared with
  \<open>textblob\<close> and \<open>transformers\<close>, and no other code point lowers to a letter of these
  two names.
\<close>

definition lower :: "pystr \<Rightarrow> pystr" where
  "lower s = map (\<lambda>c. if 65 \<le> c \<and> c \<le> 90 then c + 32 else c) s"

text \<open>Lines 111 to 123 of \<open>analyze\<close>: append, then drop the oldest item beyond 100.\<close>

definition store :: "entry \<Rightarrow> ledger \<Rightarrow> ledger" where
  "store x h = (let h' = h @ [x] in if length h' > 100 then tl h' else h')"

definition store_all :: "entry list \<Rightarrow> ledger \<Rightarrow> ledger" where
  "store_all xs h = foldl (\<lambda>h x. store x h) h xs"

text \<open>
  The \<open>/analyze\<close> endpoint, as a function of the imported \<open>analyze_sentiment\<close> (which may
  raise), of \<open>datetime.now().isoformat()\<close>, of the body and of \<open>analysis_history\<close>.  Every
  exception of the \<open>try\<close> block ends in the 500 response.
\<close>

definition analyze_endpoint ::
  "(pystr \<Rightarrow> pystr \<Rightarrow> exn + result) \<Rightarrow> pystr \<Rightarrow> body \<Rightarrow> ledger \<Rightarrow> response \<times> ledger" where
  "analyze_endpoint engine now data h =
     (case data of
        Falsy \<Rightarrow>
          (BadRequest400 ''No JSON data provided'' ''Please send JSON data with 'text' field'', h)
      | NotDict \<Rightarrow> (Error500 ''AttributeError'', h)
      | Dict t m \<Rightarrow>
          (case get_str t [] of
             Inl ex \<Rightarrow> (Error500 ex, h)
           | Inr raw \<Rightarrow>
               (case get_str m (str_of ''textblob'') of
                  Inl ex \<Rightarrow> (Error500 ex, h)
                | Inr mraw \<Rightarrow>
                    (let text = strip raw; mt = lower mraw
                     in if text = [] then
                          (BadRequest400 ''Empty text provided'' ''Please provide text to analyze'', h)
                        else
                          (let mt' = (if mt \<notin> {str_of ''textblob'', str_of ''transformers''}
                                      then str_of ''textblob'' else mt)
                           in case engine text mt' of
                                Inl ex \<Rightarrow> (Error500 ex, h)
                              | Inr r \<Rightarrow>
                                  (Ok200 r text now,
                                   store \<lparr>entry_text = take 100 text,
                                          entry_sentiment = sentiment r,
                                          entry_confidence = confidence r,
                                          entry_timestamp = now\<rparr> h))))))"

definition is_ok :: "response \<Rightarrow> bool" where
  "is_ok r = (case r of Ok200 _ _ _ \<Rightarrow> True | _ \<Rightarrow> False)"

text \<open>
  The \<open>/history\<close> endpoint: the \<open>limit\<close> argument of the query (\<open>None\<close> when absent or not
  an integer), and the \<open>count\<close> and \<open>history\<close> fields of the response.
\<close>

definition history :: "int option \<Rightarrow> ledger \<Rightarrow> nat \<times> ledger" where
  "history arg h =
     (let limit = (case arg of None \<Rightarrow> 50 | Some l \<Rightarrow> l);
          limit = min limit 100
      in (length h, slice_from (- limit) h))"

text \<open>What \<open>recent(limit)\<close> is specified to return: most recent first, capped at 100.\<close>

definition recent_spec :: "nat \<Rightarrow> ledger \<Rightarrow> ledger" where
  "recent_spec limit h = take (min limit (min (length h) 100)) (rev h)"

text \<open>
  The \<open>stats\<close> object of the \<open>/stats\<close> response; a key the response lacks is \<open>None\<close>.
  The built-in \<open>sum\<close> over the confidences is the argument \<open>fsum\<close>: how it rounds
  depends on the interpreter (additions from left to right, compensated since Python 3.12).
\<close>

record statistics =
  total :: nat
  positive :: nat
  negative :: nat
  neutral :: nat
  positive_percentage :: "rat option"
  negative_percentage :: "rat option"
  neutral_percentage :: "rat option"
  average_confidence :: "rat option"

definition count_sentiment :: "sentiment \<Rightarrow> ledger \<Rightarrow> nat" where
  "count_sentiment s h = length (filter (\<lambda>item. entry_sentiment item = s) h)"

definition stats :: "(rat list \<Rightarrow> rat) \<Rightarrow> ledger \<Rightarrow> statistics" where
  "stats fsum h =
     (if h = [] then
        \<lparr>total = 0, positive = 0, negative = 0, neutral = 0,
         positive_percentage = None, negative_percentage = None,
         neutral_percentage = None, average_confidence = None\<rparr>
      else
        (let tot = length h;
             pos = count_sentiment Positive h;
             neg = count_sentiment Negative h;
             neu = count_sentiment Neutral h;
             avg_confidence = fdiv (fsum (map entry_confidence h)) (of_nat tot)
         in \<lparr>total = tot, positive = pos, negative = neg, neutral = neu,
             positive_percentage = Some (py_round (fmul (fdiv (of_nat pos) (of_nat tot)) 100) 2),
             negative_percentage = Some (py_round (fmul (fdiv (of_nat neg) (of_nat tot)) 100) 2),
             neutral_percentage = Some (py_round (fmul (fdiv (of_nat neu) (of_nat tot)) 100) 2),
             average_confidence = Some (py_round avg_confidence 2)\<rparr>))"


section \<open>Stand-ins for the libraries, for concrete runs\<close>

definition const_textblob :: "rat \<Rightarrow> rat \<Rightarrow> textblob" where
  "const_textblob p s text = (p, s)"

definition failing_pipeline :: pipeline where
  "failing_pipeline text = None"


definition test_env :: "rat \<Rightarrow> rat \<Rightarrow> bool \<Rightarrow> pipeline option \<Rightarrow> env" where
  "test_env p s avail pl =
     \<lparr>TextBlob = const_textblob p s, TRANSFORMERS_AVAILABLE = avail, load_pipeline = pl\<rparr>"


text \<open>A scorer that is negative on the texts containing the letter \<open>x\<close>.\<close>

definition marker_textblob :: textblob where
  "marker_textblob text = (if 120 \<in> set text then (- (1 / 2), 1 / 2) else (0, 0))"

definition marker_env :: env where
  "marker_env =
     \<lparr>TextBlob = marker_textblob, TRANSFORMERS_AVAILABLE = True,
      load_pipeline = Some failing_pipeline\<rparr>"

text \<open>A text of 513 words: 512 times \<open>a\<close>, then \<open>x\<close>.\<close>

definition long_text :: pystr where
  "long_text = concat (replicate 512 [97, 32]) @ [120]"

text \<open>\<open>sum\<close> by double additions from left to right, starting at 0.\<close>

definition sum_left :: "rat list \<Rightarrow> rat" where
  "sum_left xs = foldl (\<lambda>acc x. double (acc + x)) 0 xs"

definition failing_engine :: "pystr \<Rightarrow> pystr \<Rightarrow> exn + result" where
  "failing_engine text mt = Inl ''RuntimeError''"

definition item :: "nat \<Rightarrow> sentiment \<Rightarrow> entry" where
  "item i s =
     \<lparr>entry_text = [105, 116, 101, 109], entry_sentiment = s, entry_confidence = 50,
      entry_timestamp = [i]\<rparr>"


section \<open>Rounding\<close>

lemma round_half_even_close: "\<bar>of_int (round_half_even x) - x\<bar> \<le> 1 / 2"
proof -
  define f where "f = \<lfloor>x\<rfloor>"
  define d where "d = x - of_int f"
  have d: "0 \<le> d" "d < 1" unfolding d_def f_def by linarith+
  have x: "x = of_int f + d" by (simp add: d_def)
  have "round_half_even x = f \<and> d \<le> 1 / 2 \<or> round_half_even x = f + 1 \<and> 1 / 2 \<le> d"
    unfolding round_half_even_def Let_def f_def [symmetric] d_def [symmetric] by auto
  then show ?thesis using d x by auto
qed

lemma round_half_even_of_int: "round_half_even (of_int n) = n"
  by (simp add: round_half_even_def)

lemma round_half_even_ge: "of_int n \<le> x \<Longrightarrow> n \<le> round_half_even x"
proof -
  assume "of_int n \<le> x"
  then have "n \<le> \<lfloor>x\<rfloor>" by (simp add: le_floor_iff)
  then show ?thesis
    unfolding round_half_even_def Let_def by auto
qed

lemma round_half_even_le: "x \<le> of_int n \<Longrightarrow> round_half_even x \<le> n"
proof (cases "x = of_int n")
  case True
  then show ?thesis by (simp add: round_half_even_of_int)
next
  case False
  assume "x \<le> of_int n"
  with False have "x < of_int n" by simp
  then have "\<lfloor>x\<rfloor> < n" by (simp add: floor_less_iff)
  then show ?thesis
    unfolding round_half_even_def Let_def by auto
qed

lemma round_half_even_mono: "x \<le> y \<Longrightarrow> round_half_even x \<le> round_half_even y"
proof -
  assume xy: "x \<le> y"
  then have fl: "\<lfloor>x\<rfloor> \<le> \<lfloor>y\<rfloor>" by (rule floor_mono)
  show ?thesis
  proof (cases "\<lfloor>x\<rfloor> = \<lfloor>y\<rfloor>")
    case True
    then have "x - of_int \<lfloor>x\<rfloor> \<le> y - of_int \<lfloor>y\<rfloor>" using xy by simp
    then show ?thesis
      unfolding round_half_even_def Let_def using True by auto
  next
    case False
    with fl have "\<lfloor>x\<rfloor> + 1 \<le> \<lfloor>y\<rfloor>" by simp
    moreover have "round_half_even x \<le> \<lfloor>x\<rfloor> + 1"
      unfolding round_half_even_def Let_def by auto
    moreover have "\<lfloor>y\<rfloor> \<le> round_half_even y"
      unfolding round_half_even_def Let_def by auto
    ultimately show ?thesis by linarith
  qed
qed

section \<open>Powers of two\<close>

lemma pow2_of_bitlen:
  assumes "0 < a"
  shows "(2::rat) powi (bitlen a - 1) \<le> of_int a \<and> (of_int a :: rat) < 2 powi (bitlen a)"
proof -
  have l: "1 \<le> bitlen a" using assms bitlen_eq_zero_iff [of a] bitlen_nonneg [of a] by linarith
  have b: "2 ^ nat (bitlen a - 1) \<le> a" "a < 2 ^ nat (bitlen a)"
    using bitlen_bounds [OF assms] by simp_all
  have "(of_int (2 ^ nat (bitlen a - 1)) :: rat) \<le> of_int a"
    using b(1) by (simp only: of_int_le_iff)
  then have lo: "(2::rat) ^ nat (bitlen a - 1) \<le> of_int a" by simp
  have "(of_int a :: rat) < of_int (2 ^ nat (bitlen a))"
    using b(2) by (simp only: of_int_less_iff)
  then have hi: "(of_int a :: rat) < 2 ^ nat (bitlen a)" by simp
  have "(2::rat) powi (bitlen a - 1) = 2 ^ nat (bitlen a - 1)"
    "(2::rat) powi (bitlen a) = 2 ^ nat (bitlen a)"
    using l by (simp_all add: power_int_def)
  then show ?thesis using lo hi by simp
qed

lemma pow2_add: "(2::rat) powi (m + n) = 2 powi m * 2 powi n"
  by (rule power_int_add) simp

lemma pow2_pos: "(0::rat) < 2 powi n"
  by simp

lemma pow2_le: "m \<le> n \<Longrightarrow> (2::rat) powi m \<le> 2 powi n"
  by (rule power_int_increasing) simp_all

lemma pow2_less_exp: "(2::rat) powi m < 2 powi n \<Longrightarrow> m < n"
proof (rule ccontr)
  assume a: "(2::rat) powi m < 2 powi n" and "\<not> m < n"
  then have "n \<le> m" by simp
  then have "(2::rat) powi n \<le> 2 powi m" by (rule pow2_le)
  with a show False by simp
qed

lemma ilog2_bounds:
  assumes "0 < x"
  shows "2 powi (ilog2 x) \<le> x \<and> x < 2 powi (ilog2 x + 1)"
proof -
  obtain a b where q: "quotient_of x = (a, b)" by (cases "quotient_of x")
  have b: "0 < b" using q by (rule quotient_of_denom_pos)
  have x: "x = of_int a / of_int b" using q by (rule quotient_of_div)
  have bpos: "(0::rat) < of_int b" using b by simp
  have a: "0 < a"
  proof (rule ccontr)
    assume "\<not> 0 < a"
    then have "(of_int a :: rat) \<le> 0" by simp
    then have "x \<le> 0" unfolding x using bpos by (simp add: divide_le_0_iff)
    with assms show False by simp
  qed
  define la where "la = bitlen a"
  define lb where "lb = bitlen b"
  have ar: "(2::rat) powi (la - 1) \<le> of_int a" "(of_int a :: rat) < 2 powi la"
    using pow2_of_bitlen [OF a] by (simp_all add: la_def)
  have br: "(2::rat) powi (lb - 1) \<le> of_int b" "(of_int b :: rat) < 2 powi lb"
    using pow2_of_bitlen [OF b] by (simp_all add: lb_def)
  define k where "k = la - lb"
  have up: "x < 2 powi (k + 1)"
  proof -
    have "(2::rat) powi la = 2 powi (k + 1) * 2 powi (lb - 1)"
      unfolding pow2_add [symmetric] by (simp add: k_def)
    then have "of_int a < (2::rat) powi (k + 1) * 2 powi (lb - 1)"
      using ar(2) by simp
    also have "\<dots> \<le> 2 powi (k + 1) * of_int b"
      using br(1) pow2_pos [of "k + 1"] by (simp only: mult_le_cancel_left_pos)
    finally show ?thesis unfolding x using bpos by (simp only: pos_divide_less_eq)
  qed
  have lo: "2 powi (k - 1) < x"
  proof -
    have "(2::rat) powi (k - 1) * of_int b < 2 powi (k - 1) * 2 powi lb"
      using br(2) pow2_pos [of "k - 1"] by (simp only: mult_less_cancel_left_pos)
    also have "\<dots> = 2 powi (la - 1)"
      unfolding pow2_add [symmetric] by (simp add: k_def)
    also have "\<dots> \<le> of_int a" by (rule ar(1))
    finally show ?thesis unfolding x using bpos by (simp only: pos_less_divide_eq)
  qed
  have i: "ilog2 x = (if 2 powi k \<le> x then k else k - 1)"
    by (simp add: ilog2_def q k_def la_def lb_def)
  show ?thesis
  proof (cases "2 powi k \<le> x")
    case True
    then show ?thesis using up by (simp add: i)
  next
    case False
    then show ?thesis using lo by (simp add: i)
  qed
qed

lemma ilog2_le:
  assumes "0 < x" "x < 2 powi (j + 1)"
  shows "ilog2 x \<le> j"
proof -
  have "(2::rat) powi (ilog2 x) < 2 powi (j + 1)"
    using ilog2_bounds [OF assms(1)] assms(2) by linarith
  then have "ilog2 x < j + 1" by (rule pow2_less_exp)
  then show ?thesis by simp
qed

lemma ilog2_ge:
  assumes "0 < x" "2 powi j \<le> x"
  shows "j \<le> ilog2 x"
proof -
  have "(2::rat) powi j < 2 powi (ilog2 x + 1)"
    using ilog2_bounds [OF assms(1)] assms(2) by linarith
  then have "j < ilog2 x + 1" by (rule pow2_less_exp)
  then show ?thesis by simp
qed

lemma ilog2_mono:
  assumes "0 < x" "x \<le> y"
  shows "ilog2 x \<le> ilog2 y"
proof -
  have "2 powi (ilog2 x) \<le> y" using ilog2_bounds [OF assms(1)] assms(2) by linarith
  moreover have "0 < y" using assms by linarith
  ultimately show ?thesis by (intro ilog2_ge)
qed

section \<open>The nearest double\<close>

lemma ulp_pos: "0 < ulp x"
  by (simp add: ulp_def)

lemma double_pos_eq: "0 < x \<Longrightarrow> double x = of_int (round_half_even (x / ulp x)) * ulp x"
  by (simp add: double_def)

lemma double_nonneg: "0 \<le> x \<Longrightarrow> 0 \<le> double x"
proof (cases "x = 0")
  case True
  then show ?thesis by (simp add: double_def)
next
  case False
  assume "0 \<le> x"
  with False have x: "0 < x" by simp
  have "of_int 0 \<le> x / ulp x" using x ulp_pos [of x] by simp
  then have "0 \<le> round_half_even (x / ulp x)" by (rule round_half_even_ge)
  then show ?thesis using ulp_pos [of x] by (simp add: double_pos_eq [OF x])
qed

lemma double_close: "\<bar>double x - x\<bar> \<le> ulp x / 2"
proof (cases "x = 0")
  case True
  then show ?thesis using ulp_pos [of 0] by (simp add: double_def)
next
  case False
  define u where "u = ulp x"
  define r :: rat where "r = of_int (round_half_even (\<bar>x\<bar> / u))"
  have u: "0 < u" unfolding u_def by (rule ulp_pos)
  have "\<bar>r - \<bar>x\<bar> / u\<bar> \<le> 1 / 2" unfolding r_def by (rule round_half_even_close)
  then have "\<bar>r - \<bar>x\<bar> / u\<bar> * u \<le> 1 / 2 * u"
    using u by (intro mult_right_mono) simp_all
  moreover have "\<bar>r - \<bar>x\<bar> / u\<bar> * u = \<bar>r * u - \<bar>x\<bar>\<bar>"
  proof -
    have "\<bar>r - \<bar>x\<bar> / u\<bar> * u = \<bar>(r - \<bar>x\<bar> / u) * u\<bar>"
      using u by (simp add: abs_mult)
    also have "(r - \<bar>x\<bar> / u) * u = r * u - \<bar>x\<bar>"
      using u by (simp add: left_diff_distrib)
    finally show ?thesis .
  qed
  moreover have "\<bar>double x - x\<bar> = \<bar>r * u - \<bar>x\<bar>\<bar>"
  proof -
    have "double x - x = sgn x * (r * u - \<bar>x\<bar>)"
      using False by (simp add: double_def r_def u_def right_diff_distrib mult_sgn_abs)
    then have "\<bar>double x - x\<bar> = \<bar>sgn x\<bar> * \<bar>r * u - \<bar>x\<bar>\<bar>" by (simp only: abs_mult)
    then show ?thesis using False by (simp add: abs_sgn_eq)
  qed
  ultimately show ?thesis by (simp add: u_def)
qed

lemma ulp_le:
  assumes "x \<noteq> 0" "\<bar>x\<bar> < 2 powi (j + 1)" "- 1022 \<le> j"
  shows "ulp x \<le> 2 powi (j - 52)"
proof -
  have "0 < \<bar>x\<bar>" using assms(1) by simp
  then have "ilog2 \<bar>x\<bar> \<le> j" using assms(2) by (rule ilog2_le)
  then have "max (ilog2 \<bar>x\<bar> - 52) (- 1074) \<le> j - 52" using assms(3) by simp
  then show ?thesis unfolding ulp_def by (rule pow2_le)
qed

lemma double_close_abs:
  assumes "\<bar>x\<bar> < 2 powi (j + 1)" "- 1022 \<le> j"
  shows "\<bar>double x - x\<bar> \<le> 2 powi (j - 53)"
proof (cases "x = 0")
  case True
  then show ?thesis by (simp add: double_def)
next
  case False
  have "ulp x \<le> 2 powi (j - 52)" using False assms by (rule ulp_le)
  then have "ulp x / 2 \<le> 2 powi (j - 52) / 2" by simp
  also have "(2::rat) powi (j - 52) = 2 powi (j - 53) * 2 powi 1"
    unfolding pow2_add [symmetric] by simp
  finally have "ulp x / 2 \<le> 2 powi (j - 53)" by simp
  with double_close [of x] show ?thesis by linarith
qed

lemma double_mono:
  assumes "0 \<le> x" "x \<le> y"
  shows "double x \<le> double y"
proof (cases "x = 0")
  case True
  then show ?thesis using assms double_nonneg [of y] by (simp add: double_def)
next
  case False
  with assms have x: "0 < x" and y: "0 < y" by simp_all
  define ex where "ex = max (ilog2 x - 52) (- 1074)"
  define ey where "ey = max (ilog2 y - 52) (- 1074)"
  have ux: "ulp x = 2 powi ex" using x by (simp add: ulp_def ex_def)
  have uy: "ulp y = 2 powi ey" using y by (simp add: ulp_def ey_def)
  have dx: "double x = of_int (round_half_even (x / 2 powi ex)) * 2 powi ex"
    using double_pos_eq [OF x] by (simp add: ux)
  have dy: "double y = of_int (round_half_even (y / 2 powi ey)) * 2 powi ey"
    using double_pos_eq [OF y] by (simp add: uy)
  have le: "ex \<le> ey" using ilog2_mono [OF x assms(2)] by (simp add: ex_def ey_def)
  show ?thesis
  proof (cases "ex = ey")
    case True
    have "x / 2 powi ey \<le> y / 2 powi ey"
      using assms(2) pow2_pos [of ey] by (simp add: divide_right_mono)
    then have "round_half_even (x / 2 powi ey) \<le> round_half_even (y / 2 powi ey)"
      by (rule round_half_even_mono)
    then have "(of_int (round_half_even (x / 2 powi ey)) :: rat) \<le>
        of_int (round_half_even (y / 2 powi ey))"
      by (simp only: of_int_le_iff)
    then show ?thesis unfolding dx dy True
      using pow2_pos [of ey] by (simp only: mult_le_cancel_right_pos)
  next
    case False
    with le have lt: "ex + 1 \<le> ey" by simp
    then have ey: "ey = ilog2 y - 52" unfolding ey_def ex_def by linarith
    have "x < 2 powi (ilog2 x + 1)" using ilog2_bounds [OF x] by simp
    also have "\<dots> \<le> 2 powi (ex + 53)"
      by (rule pow2_le) (simp add: ex_def)
    also have "\<dots> = of_int (2 ^ 53) * 2 powi ex"
      unfolding pow2_add by simp
    finally have "x / 2 powi ex \<le> of_int (2 ^ 53)"
      using pow2_pos [of ex] by (simp only: pos_divide_le_eq)
    then have "round_half_even (x / 2 powi ex) \<le> 2 ^ 53" by (rule round_half_even_le)
    then have "(of_int (round_half_even (x / 2 powi ex)) :: rat) \<le> of_int (2 ^ 53)"
      by (simp only: of_int_le_iff)
    then have "double x \<le> of_int (2 ^ 53) * 2 powi ex"
      unfolding dx using pow2_pos [of ex] by (simp only: mult_le_cancel_right_pos)
    also have "\<dots> = 2 powi (ex + 53)" unfolding pow2_add by simp
    also have "\<dots> \<le> 2 powi (ey + 52)" by (rule pow2_le) (use lt in simp)
    finally have a: "double x \<le> 2 powi (ey + 52)" .
    have "2 powi (ey + 52) \<le> y" using ilog2_bounds [OF y] by (simp add: ey)
    moreover have "(2::rat) powi (ey + 52) = of_int (2 ^ 52) * 2 powi ey"
      unfolding pow2_add by simp
    ultimately have "of_int (2 ^ 52) \<le> y / 2 powi ey"
      using pow2_pos [of ey] by (simp only: pos_le_divide_eq)
    then have "2 ^ 52 \<le> round_half_even (y / 2 powi ey)" by (rule round_half_even_ge)
    then have "(of_int (2 ^ 52) :: rat) \<le> of_int (round_half_even (y / 2 powi ey))"
      by (simp only: of_int_le_iff)
    then have "of_int (2 ^ 52) * 2 powi ey \<le> double y"
      unfolding dy using pow2_pos [of ey] by (simp only: mult_le_cancel_right_pos)
    moreover have "(2::rat) powi (ey + 52) = of_int (2 ^ 52) * 2 powi ey"
      unfolding pow2_add by simp
    ultimately have "2 powi (ey + 52) \<le> double y" by simp
    with a show ?thesis by linarith
  qed
qed

lemma double_consts:
  "double 0 = 0" "double 1 = 1" "double 10 = 10" "double 90 = 90" "double 100 = 100"
  "double 128 = 128" "double (double (1 / 10) * 100) = 10"
  by code_simp+

lemma double_point_one: "double (1 / 10) = 3602879701896397 / 36028797018963968"
  by code_simp

lemma double_ge: "0 \<le> y \<Longrightarrow> y \<le> x \<Longrightarrow> double y = y \<Longrightarrow> y \<le> double x"
  using double_mono [of y x] by simp

lemma double_le: "0 \<le> x \<Longrightarrow> x \<le> y \<Longrightarrow> double y = y \<Longrightarrow> double x \<le> y"
  using double_mono [of x y] by simp


lemma decimal_between:
  assumes "of_int a \<le> x" "x \<le> of_int b"
  shows "of_int a \<le> (of_int (round_half_even (x * 10 ^ n)) / 10 ^ n :: rat) \<and>
    (of_int (round_half_even (x * 10 ^ n)) / 10 ^ n :: rat) \<le> of_int b"
proof -
  have "of_int (a * 10 ^ n) \<le> x * 10 ^ n" using assms(1) by simp
  then have "a * 10 ^ n \<le> round_half_even (x * 10 ^ n)" by (rule round_half_even_ge)
  then have lo: "(of_int (a * 10 ^ n) :: rat) \<le> of_int (round_half_even (x * 10 ^ n))"
    by (simp only: of_int_le_iff)
  have "x * 10 ^ n \<le> of_int (b * 10 ^ n)" using assms(2) by simp
  then have "round_half_even (x * 10 ^ n) \<le> b * 10 ^ n" by (rule round_half_even_le)
  then have hi: "(of_int (round_half_even (x * 10 ^ n)) :: rat) \<le> of_int (b * 10 ^ n)"
    by (simp only: of_int_le_iff)
  from lo hi show ?thesis by (simp add: pos_le_divide_eq pos_divide_le_eq)
qed

lemma py_round_between:
  assumes "of_int a \<le> x" "x \<le> of_int b" "0 \<le> a"
    "double (of_int a) = of_int a" "double (of_int b) = of_int b"
  shows "of_int a \<le> py_round x n \<and> py_round x n \<le> of_int b"
proof -
  define d :: rat where "d = of_int (round_half_even (x * 10 ^ n)) / 10 ^ n"
  have d: "of_int a \<le> d" "d \<le> of_int b"
    using decimal_between [OF assms(1,2), of n] by (simp_all add: d_def)
  have a: "(0::rat) \<le> of_int a" using assms(3) by simp
  have "of_int a \<le> double d" using a d(1) assms(4) by (rule double_ge)
  moreover have "double d \<le> of_int b"
    using a d assms(5) by (intro double_le) simp_all
  ultimately show ?thesis by (simp add: py_round_def d_def)
qed

lemma double_close_128:
  assumes "\<bar>x\<bar> < 128"
  shows "\<bar>double x - x\<bar> \<le> 1 / 2 ^ 47"
proof -
  have a: "(2::rat) powi (6 + 1) = 128" by simp
  have b: "(2::rat) powi (6 - 53) = 1 / 2 ^ 47" by (simp add: inverse_eq_divide)
  have "\<bar>x\<bar> < 2 powi (6 + 1)" using assms by (simp only: a)
  then have "\<bar>double x - x\<bar> \<le> 2 powi (6 - 53)" by (rule double_close_abs) simp
  then show ?thesis by (simp only: b)
qed


section \<open>Blank texts\<close>

lemma strip_empty_iff: "strip s = [] \<longleftrightarrow> (\<forall>c \<in> set s. is_space c)"
proof
  assume "strip s = []"
  then have "dropWhile is_space (rev (dropWhile is_space s)) = []"
    by (simp add: strip_def)
  then have "\<forall>c \<in> set (dropWhile is_space s). is_space c"
    by simp
  moreover have "s = takeWhile is_space s @ dropWhile is_space s" by simp
  ultimately show "\<forall>c \<in> set s. is_space c"
    by (metis Un_iff set_append set_takeWhileD)
next
  assume "\<forall>c \<in> set s. is_space c"
  then show "strip s = []" by (auto simp: strip_def dest: set_dropWhileD)
qed

section \<open>The analyzer\<close>

lemma analyze_blank: "strip text = [] \<Longrightarrow> analyze e self text = empty_result"
  by (simp add: analyze_def)

lemma analyze_textblob_model: "model (analyze_with_textblob e text) = Some ''TextBlob''"
  by (simp add: analyze_with_textblob_def Let_def split: prod.splits)

lemma init_unavailable:
  "\<not> TRANSFORMERS_AVAILABLE e \<or> load_pipeline e = None \<Longrightarrow>
   transformer_model (init e mt) = None \<and> model_type (init e mt) \<noteq> str_of ''transformers''"
  by (auto simp: init_def str_of_def)

lemma analyze_no_model:
  "strip text \<noteq> [] \<Longrightarrow> transformer_model self = None \<Longrightarrow>
   analyze e self text = analyze_with_textblob e text"
  by (auto simp: analyze_def analyze_with_transformers_def strip_def)

lemma truncate_words_short: "length (split text) \<le> 512 \<Longrightarrow> truncate_words text = text"
  by (simp add: truncate_words_def)

lemma textblob_requested:
  "strip text \<noteq> [] \<Longrightarrow>
   analyze_sentiment e text (str_of ''textblob'') = analyze_with_textblob e text"
  by (auto simp: analyze_sentiment_def analyze_def init_def str_of_def strip_def)

text \<open>
  C1, as the code has it: for a text that is not blank, analysed with TextBlob requested, a
  polarity above the float \<open>0.1\<close> gives Positive and one below \<open>-0.1\<close> gives Negative,
  with confidence \<open>min(p * 100, 100)\<close>, respectively \<open>min(|p| * 100, 100)\<close>, the product
  taken in double arithmetic and the result rounded to two decimals.
\<close>

theorem textblob_classification:
  "strip text \<noteq> [] \<Longrightarrow>
   (double (1 / 10) < fst (TextBlob e text) \<longrightarrow>
      sentiment (analyze_sentiment e text (str_of ''textblob'')) = Positive \<and>
      confidence (analyze_sentiment e text (str_of ''textblob'')) =
        py_round (min (fmul (fst (TextBlob e text)) 100) 100) 2) \<and>
   (fst (TextBlob e text) < - double (1 / 10) \<longrightarrow>
      sentiment (analyze_sentiment e text (str_of ''textblob'')) = Negative \<and>
      confidence (analyze_sentiment e text (str_of ''textblob'')) =
        py_round (min (fmul \<bar>fst (TextBlob e text)\<bar> 100) 100) 2)"
proof -
  assume t: "strip text \<noteq> []"
  obtain p s where ps: "TextBlob e text = (p, s)" by (cases "TextBlob e text")
  have "0 < double (1 / 10)" by (simp add: double_point_one)
  then show ?thesis
    by (simp add: textblob_requested [OF t] analyze_with_textblob_def ps)
qed

theorem textblob_classification_witness:
  "sentiment (analyze_sentiment (test_env (double (1 / 3)) (1 / 2) False None) [104, 105]
     (str_of ''textblob'')) = Positive \<and>
   confidence (analyze_sentiment (test_env (double (1 / 3)) (1 / 2) False None) [104, 105]
     (str_of ''textblob'')) = double (3333 / 100) \<and>
   sentiment (analyze_sentiment
     (test_env (- (7430939385161319 / 36028797018963968)) (1 / 2) False None) [104, 105]
     (str_of ''textblob'')) = Negative \<and>
   confidence (analyze_sentiment
     (test_env (- (7430939385161319 / 36028797018963968)) (1 / 2) False None) [104, 105]
     (str_of ''textblob'')) = double (2062 / 100)"
proof -
  have t: "strip [104, 105] \<noteq> []" by (simp add: strip_def is_space_def)
  have a: "fst (TextBlob (test_env (double (1 / 3)) (1 / 2) False None) [104, 105]) =
      double (1 / 3)"
    and b: "fst (TextBlob (test_env (- (7430939385161319 / 36028797018963968)) (1 / 2)
      False None) [104, 105]) = - (7430939385161319 / 36028797018963968)"
    by (simp_all add: test_env_def const_textblob_def)
  have h: "double (1 / 10) < double (1 / 3)"
    "- (7430939385161319 / 36028797018963968) < - double (1 / 10)"
    by code_simp+
  have c: "py_round (min (fmul (double (1 / 3)) 100) 100) 2 = double (3333 / 100)"
    "py_round (min (fmul \<bar>- (7430939385161319 / 36028797018963968)\<bar> 100) 100) 2 =
      double (2062 / 100)"
    by code_simp+
  show ?thesis
    using textblob_classification [OF t, of "test_env (double (1 / 3)) (1 / 2) False None"]
      textblob_classification [OF t,
        of "test_env (- (7430939385161319 / 36028797018963968)) (1 / 2) False None"]
    unfolding a b c using h by blast
qed

text \<open>
  The confidence is not the unrounded \<open>min(p * 100, 100)\<close>: at the polarity \<open>1/3\<close> (as a
  double) it is \<open>33.33\<close>, which is neither the double product nor the exact one.
\<close>

theorem textblob_unrounded_counterexample:
  "double (1 / 10) <
     fst (TextBlob (test_env (double (1 / 3)) (1 / 2) False None) [104, 105]) \<and>
   confidence (analyze_sentiment (test_env (double (1 / 3)) (1 / 2) False None) [104, 105]
     (str_of ''textblob'')) \<noteq>
     min (fmul (fst (TextBlob (test_env (double (1 / 3)) (1 / 2) False None) [104, 105])) 100)
       100 \<and>
   confidence (analyze_sentiment (test_env (double (1 / 3)) (1 / 2) False None) [104, 105]
     (str_of ''textblob'')) \<noteq>
     min (fst (TextBlob (test_env (double (1 / 3)) (1 / 2) False None) [104, 105]) * 100) 100"
proof -
  have t: "strip [104, 105] \<noteq> []" by (simp add: strip_def is_space_def)
  have a: "TextBlob (test_env (double (1 / 3)) (1 / 2) False None) [104, 105] =
      (double (1 / 3), 1 / 2)"
    by (simp add: test_env_def const_textblob_def)
  have h: "double (1 / 10) < double (1 / 3)" by code_simp
  have c: "py_round (min (fmul (double (1 / 3)) 100) 100) 2 \<noteq>
      min (fmul (double (1 / 3)) 100) 100"
    "py_round (min (fmul (double (1 / 3)) 100) 100) 2 \<noteq> min (double (1 / 3) * 100) 100"
    by code_simp+
  show ?thesis
    using h c by (simp add: textblob_requested [OF t] analyze_with_textblob_def a)
qed

text \<open>
  C2, as the code has it: for a text that is not blank, analysed with TextBlob requested, a
  polarity between the floats \<open>-0.1\<close> and \<open>0.1\<close> gives Neutral, with confidence
  \<open>100 - |p| * 100\<close> computed in double arithmetic and rounded to two decimals, and that
  confidence lies in \<open>[90, 100]\<close>.
\<close>

theorem textblob_neutral:
  "strip text \<noteq> [] \<Longrightarrow>
   - double (1 / 10) \<le> fst (TextBlob e text) \<and> fst (TextBlob e text) \<le> double (1 / 10) \<Longrightarrow>
   sentiment (analyze_sentiment e text (str_of ''textblob'')) = Neutral \<and>
   confidence (analyze_sentiment e text (str_of ''textblob'')) =
     py_round (fsub 100 (fmul \<bar>fst (TextBlob e text)\<bar> 100)) 2 \<and>
   90 \<le> confidence (analyze_sentiment e text (str_of ''textblob'')) \<and>
   confidence (analyze_sentiment e text (str_of ''textblob'')) \<le> 100"
proof -
  assume t: "strip text \<noteq> []"
    and h: "- double (1 / 10) \<le> fst (TextBlob e text) \<and> fst (TextBlob e text) \<le> double (1 / 10)"
  obtain p s where ps: "TextBlob e text = (p, s)" by (cases "TextBlob e text")
  from h ps have p: "- double (1 / 10) \<le> p" "p \<le> double (1 / 10)" by simp_all
  define y where "y = fmul \<bar>p\<bar> 100"
  define z where "z = fsub 100 y"
  have r: "analyze_sentiment e text (str_of ''textblob'') =
      \<lparr>sentiment = Neutral, confidence = py_round z 2,
       polarity = Some (py_round p 3), subjectivity = Some (py_round s 3),
       score = None, model = Some ''TextBlob'', error = None\<rparr>"
    using p by (simp add: textblob_requested [OF t] analyze_with_textblob_def ps y_def z_def)
  have ap: "\<bar>p\<bar> \<le> double (1 / 10)" using p by (simp add: abs_le_iff)
  have y0: "0 \<le> y" unfolding y_def fmul_def by (rule double_nonneg) simp
  have "double (\<bar>p\<bar> * 100) \<le> double (double (1 / 10) * 100)"
    using ap by (intro double_mono) simp_all
  then have y10: "y \<le> 10" by (simp add: y_def fmul_def double_consts)
  have "of_int 90 \<le> double (100 - y)"
    using y10 by (intro double_ge) (simp_all add: double_consts)
  moreover have "double (100 - y) \<le> of_int 100"
    using y0 y10 by (intro double_le) (simp_all add: double_consts)
  ultimately have "of_int 90 \<le> py_round z 2 \<and> py_round z 2 \<le> of_int 100"
    unfolding z_def fsub_def by (intro py_round_between) (simp_all add: double_consts)
  then show ?thesis by (simp add: r ps y_def z_def)
qed

theorem textblob_neutral_witness:
  "sentiment (analyze_sentiment (test_env (double (1 / 30)) (1 / 2) False None) [104, 105]
     (str_of ''textblob'')) = Neutral \<and>
   confidence (analyze_sentiment (test_env (double (1 / 30)) (1 / 2) False None) [104, 105]
     (str_of ''textblob'')) = double (9667 / 100) \<and>
   sentiment (analyze_sentiment (test_env (double (1 / 10)) (1 / 2) False None) [104, 105]
     (str_of ''textblob'')) = Neutral \<and>
   confidence (analyze_sentiment (test_env (double (1 / 10)) (1 / 2) False None) [104, 105]
     (str_of ''textblob'')) = 90"
proof -
  have t: "strip [104, 105] \<noteq> []" by (simp add: strip_def is_space_def)
  have a: "fst (TextBlob (test_env (double (1 / 30)) (1 / 2) False None) [104, 105]) =
      double (1 / 30)"
    and b: "fst (TextBlob (test_env (double (1 / 10)) (1 / 2) False None) [104, 105]) =
      double (1 / 10)"
    by (simp_all add: test_env_def const_textblob_def)
  have h: "- double (1 / 10) \<le> double (1 / 30) \<and> double (1 / 30) \<le> double (1 / 10)"
    and k: "- double (1 / 10) \<le> double (1 / 10) \<and> double (1 / 10) \<le> double (1 / 10)"
    by code_simp+
  have c: "py_round (fsub 100 (fmul \<bar>double (1 / 30)\<bar> 100)) 2 = double (9667 / 100)"
    "py_round (fsub 100 (fmul \<bar>double (1 / 10)\<bar> 100)) 2 = 90"
    by code_simp+
  show ?thesis
    using textblob_neutral [OF t, of "test_env (double (1 / 30)) (1 / 2) False None"]
      textblob_neutral [OF t, of "test_env (double (1 / 10)) (1 / 2) False None"]
    unfolding a b c using h k by blast
qed

text \<open>
  The confidence is not the unrounded \<open>100 - |p| * 100\<close>: at the polarity \<open>1/30\<close> (as a
  double) it is \<open>96.67\<close>.  And a text of one space, of polarity 0, gets confidence 0.
\<close>

theorem textblob_neutral_unrounded_counterexample:
  "- double (1 / 10) \<le>
     fst (TextBlob (test_env (double (1 / 30)) (1 / 2) False None) [104, 105]) \<and>
   fst (TextBlob (test_env (double (1 / 30)) (1 / 2) False None) [104, 105]) \<le>
     double (1 / 10) \<and>
   confidence (analyze_sentiment (test_env (double (1 / 30)) (1 / 2) False None) [104, 105]
     (str_of ''textblob'')) \<noteq>
     fsub 100
       (fmul \<bar>fst (TextBlob (test_env (double (1 / 30)) (1 / 2) False None) [104, 105])\<bar> 100) \<and>
   confidence (analyze_sentiment (test_env (double (1 / 30)) (1 / 2) False None) [104, 105]
     (str_of ''textblob'')) \<noteq>
     100 - \<bar>fst (TextBlob (test_env (double (1 / 30)) (1 / 2) False None) [104, 105])\<bar> * 100 \<and>
   fst (TextBlob (test_env 0 0 False None) [32]) = 0 \<and>
   confidence (analyze_sentiment (test_env 0 0 False None) [32] (str_of ''textblob'')) = 0"
proof -
  have e: "fst (TextBlob (test_env 0 0 False None) [32]) = 0"
    by (simp add: test_env_def const_textblob_def)
  have f: "confidence (analyze_sentiment (test_env 0 0 False None) [32] (str_of ''textblob'')) = 0"
    by (simp add: analyze_sentiment_def analyze_def strip_def is_space_def empty_result_def)
  have t: "strip [104, 105] \<noteq> []" by (simp add: strip_def is_space_def)
  have a: "TextBlob (test_env (double (1 / 30)) (1 / 2) False None) [104, 105] =
      (double (1 / 30), 1 / 2)"
    by (simp add: test_env_def const_textblob_def)
  have h: "- double (1 / 10) \<le> double (1 / 30)" "double (1 / 30) \<le> double (1 / 10)"
    "\<not> double (1 / 10) < double (1 / 30)" "\<not> double (1 / 30) < - double (1 / 10)"
    by code_simp+
  have c: "py_round (fsub 100 (fmul \<bar>double (1 / 30)\<bar> 100)) 2 \<noteq>
      fsub 100 (fmul \<bar>double (1 / 30)\<bar> 100)"
    "py_round (fsub 100 (fmul \<bar>double (1 / 30)\<bar> 100)) 2 \<noteq> 100 - \<bar>double (1 / 30)\<bar> * 100"
    by code_simp+
  show ?thesis
    using h c e f by (simp add: textblob_requested [OF t] analyze_with_textblob_def a)
qed

text \<open>
  C3: for a text that is empty or consists of whitespace only, \<open>analyze_sentiment\<close> returns,
  whatever backend is requested, the result with sentiment Neutral, confidence \<open>0\<close> and the
  \<open>error\<close> key set to the empty-text message; no backend is named in it.
\<close>

theorem analyze_empty_input:
  "text = [] \<or> (\<forall>c \<in> set text. is_space c) \<Longrightarrow>
   sentiment (analyze_sentiment e text mt) = Neutral \<and>
   confidence (analyze_sentiment e text mt) = 0 \<and>
   error (analyze_sentiment e text mt) = Some ''Empty text provided'' \<and>
   model (analyze_sentiment e text mt) = None"
proof -
  assume "text = [] \<or> (\<forall>c \<in> set text. is_space c)"
  then have "strip text = []" by (auto simp: strip_empty_iff)
  then have "analyze_sentiment e text mt = empty_result"
    by (simp add: analyze_sentiment_def analyze_blank)
  then show ?thesis by (simp add: empty_result_def)
qed

theorem analyze_empty_input_witness:
  "sentiment (analyze_sentiment (test_env (1 / 3) (1 / 2) True (Some failing_pipeline))
     [32, 9, 10] (str_of ''transformers'')) = Neutral \<and>
   confidence (analyze_sentiment (test_env (1 / 3) (1 / 2) True (Some failing_pipeline))
     [32, 9, 10] (str_of ''transformers'')) = 0 \<and>
   error (analyze_sentiment (test_env (1 / 3) (1 / 2) True (Some failing_pipeline))
     [32, 9, 10] (str_of ''transformers'')) = Some ''Empty text provided'' \<and>
   confidence (analyze_sentiment (test_env (1 / 3) (1 / 2) False None) []
     (str_of ''textblob'')) = 0"
proof -
  have a: "[32, 9, 10] = ([] :: pystr) \<or> (\<forall>c \<in> set [32, 9, 10]. is_space c)"
    by (simp add: is_space_def)
  show ?thesis
    using analyze_empty_input [OF a, of "test_env (1 / 3) (1 / 2) True (Some failing_pipeline)"
        "str_of ''transformers''"]
      analyze_empty_input [of "[]" "test_env (1 / 3) (1 / 2) False None" "str_of ''textblob''"]
    by simp
qed

text \<open>
  C4, as the code has it: for a text that is neither empty nor whitespace only, requesting
  \<open>transformers\<close> when the library is absent or the model failed to load returns the
  TextBlob result of the text, and the \<open>model\<close> key of the result names TextBlob.
\<close>

theorem unavailable_pretrained_uses_textblob:
  "strip text \<noteq> [] \<Longrightarrow> \<not> TRANSFORMERS_AVAILABLE e \<or> load_pipeline e = None \<Longrightarrow>
   analyze_sentiment e text (str_of ''transformers'') = analyze_with_textblob e text \<and>
   model (analyze_sentiment e text (str_of ''transformers'')) = Some ''TextBlob''"
proof -
  assume t: "strip text \<noteq> []" and u: "\<not> TRANSFORMERS_AVAILABLE e \<or> load_pipeline e = None"
  from u have "transformer_model (init e (str_of ''transformers'')) = None"
    using init_unavailable by blast
  with t have "analyze_sentiment e text (str_of ''transformers'') = analyze_with_textblob e text"
    unfolding analyze_sentiment_def by (rule analyze_no_model)
  then show ?thesis by (simp add: analyze_textblob_model)
qed

theorem unavailable_pretrained_uses_textblob_witness:
  "strip [104, 105] \<noteq> [] \<and>
   model (analyze_sentiment (test_env (1 / 3) (1 / 2) False None) [104, 105]
     (str_of ''transformers'')) = Some ''TextBlob'' \<and>
   model (analyze_sentiment (test_env (1 / 3) (1 / 2) True None) [104, 105]
     (str_of ''transformers'')) = Some ''TextBlob''"
proof -
  have a: "strip [104, 105] \<noteq> []" by (simp add: strip_def is_space_def)
  have b: "\<not> TRANSFORMERS_AVAILABLE (test_env (1 / 3) (1 / 2) False None) \<or>
      load_pipeline (test_env (1 / 3) (1 / 2) False None) = None"
    and c: "\<not> TRANSFORMERS_AVAILABLE (test_env (1 / 3) (1 / 2) True None) \<or>
      load_pipeline (test_env (1 / 3) (1 / 2) True None) = None"
    by (simp_all add: test_env_def)
  show ?thesis
    using unavailable_pretrained_uses_textblob [OF a b, THEN conjunct2]
      unavailable_pretrained_uses_textblob [OF a c, THEN conjunct2] a
    by simp
qed

text \<open>
  A text of one space is not empty, yet with the library absent the result for it is the
  empty-text result: it has no \<open>model\<close> key and is not the TextBlob result.
\<close>

theorem blank_text_no_backend_counterexample:
  "[32] \<noteq> ([] :: pystr) \<and>
   \<not> TRANSFORMERS_AVAILABLE (test_env (1 / 3) (1 / 2) False None) \<and>
   model (analyze_sentiment (test_env (1 / 3) (1 / 2) False None) [32]
     (str_of ''transformers'')) \<noteq> Some ''TextBlob'' \<and>
   analyze_sentiment (test_env (1 / 3) (1 / 2) False None) [32] (str_of ''transformers'') \<noteq>
     analyze_with_textblob (test_env (1 / 3) (1 / 2) False None) [32]"
  by (simp add: test_env_def analyze_sentiment_def analyze_def strip_def is_space_def
      empty_result_def analyze_with_textblob_def const_textblob_def)

lemma transient_failure_fallback:
  "strip text \<noteq> [] \<Longrightarrow> TRANSFORMERS_AVAILABLE e \<Longrightarrow> load_pipeline e = Some m \<Longrightarrow>
   m (truncate_words text) = None \<Longrightarrow>
   analyze_sentiment e text (str_of ''transformers'') =
     analyze_with_textblob e (truncate_words text)"
proof -
  assume t: "strip text \<noteq> []" and av: "TRANSFORMERS_AVAILABLE e"
    and ld: "load_pipeline e = Some m" and fail: "m (truncate_words text) = None"
  from av ld have i: "init e (str_of ''transformers'') =
      \<lparr>model_type = str_of ''transformers'', transformer_model = Some m\<rparr>"
    by (simp add: init_def)
  from t have "text \<noteq> []" by (auto simp: strip_def)
  with t fail show ?thesis
    by (simp add: analyze_sentiment_def i analyze_def analyze_with_transformers_def)
qed

lemma split_many_words:
  "\<not> is_space c \<Longrightarrow>
   split_from [] (concat (replicate n [c, 32]) @ cs) = replicate n [c] @ split_from [] cs"
  by (induction n) (simp_all add: is_space_def)

lemma split_long_text: "split long_text = replicate 512 [97] @ [[120]]"
  unfolding split_def long_text_def
  by (subst split_many_words) (simp_all add: is_space_def)

lemma join_no_marker: "120 \<notin> set (join [32] (replicate n [97]))"
proof (induction n rule: less_induct)
  case (less n)
  show ?case
  proof (cases n)
    case 0
    then show ?thesis by simp
  next
    case (Suc k)
    show ?thesis
    proof (cases k)
      case 0
      with Suc show ?thesis by simp
    next
      case (Suc j)
      have "120 \<notin> set (join [32] (replicate (Suc j) [97]))"
        using less [of "Suc j"] \<open>n = Suc k\<close> \<open>k = Suc j\<close> by simp
      then show ?thesis using \<open>n = Suc k\<close> \<open>k = Suc j\<close> by simp
    qed
  qed
qed

lemma truncate_long_text: "truncate_words long_text = join [32] (replicate 512 [97])"
  by (simp add: truncate_words_def split_long_text str_of_def)

text \<open>
  C5 asks that, when the loaded model raises on the call, the result is the TextBlob result
  of the input.  The code returns the TextBlob result of the text as the \<open>try\<close> block left
  it, cut to 512 words: for the text of 513 words whose last word alone is negative, the
  call returns Neutral, where TextBlob on the input gives Negative.
\<close>

theorem transient_failure_long_text:
  "TRANSFORMERS_AVAILABLE marker_env \<and> load_pipeline marker_env = Some failing_pipeline \<and>
   failing_pipeline (truncate_words long_text) = None \<and>
   length (split long_text) = 513 \<and>
   sentiment (analyze_sentiment marker_env long_text (str_of ''transformers'')) = Neutral \<and>
   sentiment (analyze_with_textblob marker_env long_text) = Negative"
proof -
  have av: "TRANSFORMERS_AVAILABLE marker_env"
    and ld: "load_pipeline marker_env = Some failing_pipeline"
    by (simp_all add: marker_env_def)
  have fail: "failing_pipeline (truncate_words long_text) = None"
    by (simp add: failing_pipeline_def)
  have len: "length (split long_text) = 513" by (simp add: split_long_text)
  have x: "120 \<in> set long_text" by (simp add: long_text_def)
  have "\<not> is_space 120" by (simp add: is_space_def)
  with x have "\<not> (\<forall>c \<in> set long_text. is_space c)" by blast
  then have t: "strip long_text \<noteq> []" by (simp add: strip_empty_iff)
  have pos: "0 < double (1 / 10)" and neg: "- (1 / 2) < - double (1 / 10)"
    by (simp_all add: double_point_one)
  have "TextBlob marker_env (truncate_words long_text) = (0, 0)"
    using join_no_marker [of 512]
    by (simp add: marker_env_def marker_textblob_def truncate_long_text)
  then have a: "sentiment (analyze_with_textblob marker_env (truncate_words long_text)) = Neutral"
    using pos by (simp add: analyze_with_textblob_def)
  have "TextBlob marker_env long_text = (- (1 / 2), 1 / 2)"
    using x by (simp add: marker_env_def marker_textblob_def)
  then have b: "sentiment (analyze_with_textblob marker_env long_text) = Negative"
    using pos neg by (simp add: analyze_with_textblob_def)
  from av ld fail len a b show ?thesis
    by (simp add: transient_failure_fallback [OF t av ld fail])
qed








section \<open>The analysis history\<close>

lemma store_full: "length h = 100 \<Longrightarrow> store x h = tl h @ [x]"
  by (cases h) (simp_all add: store_def)

lemma store_eq_drop: "length h \<le> 100 \<Longrightarrow> store x h = drop (length h + 1 - 100) (h @ [x])"
proof (cases "length h = 100")
  case True
  then show ?thesis by (cases h) (simp_all add: store_def)
next
  case False
  assume "length h \<le> 100"
  with False have "length h < 100" by simp
  then show ?thesis by (simp add: store_def)
qed

lemma store_length: "length h \<le> 100 \<Longrightarrow> length (store x h) \<le> 100"
  by (simp add: store_eq_drop)

lemma store_all_Cons: "store_all (x # xs) h = store_all xs (store x h)"
  by (simp add: store_all_def)

lemma store_all_eq_drop:
  "length h \<le> 100 \<Longrightarrow> store_all xs h = drop (length h + length xs - 100) (h @ xs)"
proof (induction xs arbitrary: h)
  case Nil
  then show ?case by (simp add: store_all_def)
next
  case (Cons x xs)
  define d where "d = length h + 1 - 100"
  have d: "d \<le> length (h @ [x])" by (simp add: d_def)
  have s: "store x h = drop d (h @ [x])"
    using Cons.prems by (simp add: store_eq_drop d_def)
  have l: "length (store x h) \<le> 100" using Cons.prems by (rule store_length)
  have "store_all (x # xs) h = store_all xs (store x h)" by (rule store_all_Cons)
  also have "\<dots> = drop (length (store x h) + length xs - 100) (store x h @ xs)"
    using l by (rule Cons.IH)
  also have "store x h @ xs = drop d (h @ x # xs)"
  proof -
    have "drop d ((h @ [x]) @ xs) = drop d (h @ [x]) @ xs"
      using d by (subst drop_append) simp
    then show ?thesis by (simp add: s)
  qed
  also have "drop (length (store x h) + length xs - 100) (drop d (h @ x # xs)) =
      drop (length (store x h) + length xs - 100 + d) (h @ x # xs)"
    by (simp only: drop_drop)
  also have "length (store x h) + length xs - 100 + d = length h + length (x # xs) - 100"
    using Cons.prems by (simp add: s d_def)
  finally show ?case .
qed

text \<open>
  C6: after any sequence of stores into the empty history its length is at most 100 and it
  holds the last 100 stored items in order; after \<open>100 + k\<close> stores with \<open>k > 0\<close> it
  holds exactly 100 items, the stored ones without the first \<open>k\<close>.  A store into a full
  history drops exactly its oldest item.
\<close>

theorem history_bounded_fifo:
  "length (store_all xs []) \<le> 100 \<and>
   store_all xs [] = drop (length xs - 100) xs \<and>
   (length xs = 100 + k \<and> 0 < k \<longrightarrow>
      length (store_all xs []) = 100 \<and> store_all xs [] = drop k xs) \<and>
   (length h = 100 \<longrightarrow> store x h = tl h @ [x])"
proof -
  have e: "store_all xs [] = drop (length xs - 100) xs"
    using store_all_eq_drop [of "[]" xs] by simp
  then have "length (store_all xs []) \<le> 100" by simp
  moreover have "length xs = 100 + k \<and> 0 < k \<longrightarrow>
      length (store_all xs []) = 100 \<and> store_all xs [] = drop k xs"
    by (simp add: e)
  moreover have "length h = 100 \<longrightarrow> store x h = tl h @ [x]"
    by (simp add: store_full)
  ultimately show ?thesis using e by blast
qed

theorem history_bounded_fifo_witness:
  "length (map (\<lambda>i. item i Neutral) [0..<101]) = 100 + 1 \<and>
   length (store_all (map (\<lambda>i. item i Neutral) [0..<101]) []) = 100 \<and>
   store_all (map (\<lambda>i. item i Neutral) [0..<101]) [] =
     drop 1 (map (\<lambda>i. item i Neutral) [0..<101]) \<and>
   store (item 7 Positive) (replicate 100 (item 0 Neutral)) =
     tl (replicate 100 (item 0 Neutral)) @ [item 7 Positive]"
proof -
  have a: "length (map (\<lambda>i. item i Neutral) [0..<101]) = 100 + 1" by simp
  have b: "length (replicate 100 (item 0 Neutral)) = 100" by simp
  show ?thesis
    using history_bounded_fifo [of "map (\<lambda>i. item i Neutral) [0..<101]" 1
        "replicate 100 (item 0 Neutral)" "item 7 Positive"] a b
    by simp
qed

lemma slice_from_neg:
  "0 < l \<Longrightarrow> slice_from (- l) xs = drop (length xs - nat l) xs"
proof -
  assume "0 < l"
  then have "nat (max (- l + int (length xs)) 0) = length xs - nat l" by auto
  with \<open>0 < l\<close> show ?thesis by (simp add: slice_from_def Let_def)
qed

lemma history_limit_zero: "snd (history (Some 0) h) = h"
  by (simp add: history_def slice_from_def)

text \<open>
  C7, as the code has it: for a limit of at least 1, \<open>/history\<close> returns the
  \<open>min(limit, size, 100)\<close> most recent items, the oldest of them first.
\<close>

theorem history_recent:
  "0 < limit \<Longrightarrow>
   snd (history (Some limit) h) =
     rev (take (min (nat limit) (min (length h) 100)) (rev h)) \<and>
   length (snd (history (Some limit) h)) = min (nat limit) (min (length h) 100) \<and>
   fst (history (Some limit) h) = length h"
proof -
  assume p: "0 < limit"
  define l where "l = min limit 100"
  have l: "0 < l" using p by (simp add: l_def)
  have n: "min (nat limit) (min (length h) 100) = min (nat l) (length h)"
    by (auto simp: l_def min_def)
  have "snd (history (Some limit) h) = slice_from (- l) h"
    by (simp add: history_def l_def)
  also have "\<dots> = drop (length h - nat l) h" using l by (rule slice_from_neg)
  also have "\<dots> = rev (take (min (nat l) (length h)) (rev h))"
    by (simp add: take_rev min_def)
  finally have e: "snd (history (Some limit) h) =
      rev (take (min (nat limit) (min (length h) 100)) (rev h))"
    by (simp only: n)
  have "length (snd (history (Some limit) h)) = min (nat limit) (min (length h) 100)"
    unfolding e by (simp add: min_def)
  moreover have "fst (history (Some limit) h) = length h" by (simp add: history_def)
  ultimately show ?thesis using e by blast
qed

theorem history_recent_witness:
  "snd (history (Some 2) [item 0 Positive, item 1 Negative, item 2 Neutral]) =
     [item 1 Negative, item 2 Neutral] \<and>
   length (snd (history (Some 500) (replicate 100 (item 0 Neutral)))) = 100"
proof -
  have a: "(0::int) < 2" and b: "(0::int) < 500" by simp_all
  show ?thesis
    using history_recent [OF a, of "[item 0 Positive, item 1 Negative, item 2 Neutral]"]
      history_recent [OF b, of "replicate 100 (item 0 Neutral)"]
    by simp
qed

text \<open>
  The items are not returned most recent first: with two items stored and limit 2 the
  response lists them in the order they were stored.
\<close>

theorem history_order_counterexample:
  "snd (history (Some 2) [item 0 Positive, item 1 Negative]) \<noteq>
     recent_spec 2 [item 0 Positive, item 1 Negative]"
  by (simp add: history_def slice_from_def recent_spec_def item_def)

section \<open>Statistics\<close>

lemma count_sentiment_total:
  "count_sentiment Positive h + count_sentiment Negative h + count_sentiment Neutral h = length h"
proof (induction h)
  case Nil
  then show ?case by (simp add: count_sentiment_def)
next
  case (Cons x h)
  then show ?case by (cases "entry_sentiment x") (simp_all add: count_sentiment_def)
qed

text \<open>One percentage: a double within \<open>2 ^ -47\<close> of a whole number of hundredths, which
  is the exact percentage rounded, up to the error of the two float operations.\<close>

lemma percentage_parts:
  assumes "0 \<le> q" "q \<le> 1"
  shows "\<exists>r :: int. \<bar>py_round (fmul (double q) 100) 2 - of_int r / 100\<bar> \<le> 1 / 2 ^ 47 \<and>
    \<bar>of_int r - q * 10000\<bar> \<le> 1 / 2 + 1 / 1000"
proof -
  define f1 where "f1 = double q"
  define f2 where "f2 = double (f1 * 100)"
  define r where "r = round_half_even (f2 * 10 ^ 2)"
  have f10: "0 \<le> f1" unfolding f1_def using assms(1) by (rule double_nonneg)
  have f11: "f1 \<le> 1" unfolding f1_def using assms by (intro double_le) (simp_all add: double_consts)
  have "\<bar>q\<bar> < 128" using assms by simp
  then have e1: "\<bar>f1 - q\<bar> \<le> 1 / 2 ^ 47" unfolding f1_def by (rule double_close_128)
  have f20: "0 \<le> f2" unfolding f2_def using f10 by (intro double_nonneg) simp
  have f21: "f2 \<le> 100"
    unfolding f2_def using f10 f11 by (intro double_le) (simp_all add: double_consts)
  have "\<bar>f1 * 100\<bar> < 128" using f10 f11 by simp
  then have e2: "\<bar>f2 - f1 * 100\<bar> \<le> 1 / 2 ^ 47" unfolding f2_def by (rule double_close_128)
  have e3: "\<bar>of_int r - f2 * 100\<bar> \<le> 1 / 2"
    unfolding r_def using round_half_even_close [of "f2 * 10 ^ 2"] by simp
  have "of_int 0 \<le> (of_int r / 10 ^ 2 :: rat) \<and> (of_int r / 10 ^ 2 :: rat) \<le> of_int 100"
    unfolding r_def using f20 f21 by (intro decimal_between) simp_all
  then have "\<bar>of_int r / 100 :: rat\<bar> < 128" by simp
  then have e4: "\<bar>double (of_int r / 100) - of_int r / 100\<bar> \<le> 1 / 2 ^ 47"
    by (rule double_close_128)
  have p: "py_round (fmul (double q) 100) 2 = double (of_int r / 100)"
    by (simp add: py_round_def fmul_def r_def f2_def f1_def)
  have k: "(1::rat) / 2 ^ 47 \<le> 1 / 20200000" by simp
  have "\<bar>of_int r - q * 10000\<bar> \<le> 1 / 2 + 1 / 1000"
    using e1 e2 e3 k unfolding abs_le_iff by linarith
  with e4 p show ?thesis by auto
qed

lemma three_percentages:
  assumes "0 \<le> x" "0 \<le> y" "0 \<le> z" "x + y + z = 1"
  shows "\<bar>py_round (fmul (double x) 100) 2 + py_round (fmul (double y) 100) 2 +
    py_round (fmul (double z) 100) 2 - 100\<bar> \<le> 1 / 100 + 3 / 2 ^ 47"
proof -
  have le: "x \<le> 1" "y \<le> 1" "z \<le> 1" using assms by linarith+
  obtain a :: int where a: "\<bar>py_round (fmul (double x) 100) 2 - of_int a / 100\<bar> \<le> 1 / 2 ^ 47"
    "\<bar>of_int a - x * 10000\<bar> \<le> 1 / 2 + 1 / 1000"
    using percentage_parts [OF assms(1) le(1)] by blast
  obtain b :: int where b: "\<bar>py_round (fmul (double y) 100) 2 - of_int b / 100\<bar> \<le> 1 / 2 ^ 47"
    "\<bar>of_int b - y * 10000\<bar> \<le> 1 / 2 + 1 / 1000"
    using percentage_parts [OF assms(2) le(2)] by blast
  obtain c :: int where c: "\<bar>py_round (fmul (double z) 100) 2 - of_int c / 100\<bar> \<le> 1 / 2 ^ 47"
    "\<bar>of_int c - z * 10000\<bar> \<le> 1 / 2 + 1 / 1000"
    using percentage_parts [OF assms(3) le(3)] by blast
  have "\<bar>(of_int a + of_int b + of_int c :: rat) - 10000\<bar> < 2"
    using a(2) b(2) c(2) assms(4) unfolding abs_le_iff abs_less_iff by linarith
  then have "(of_int \<bar>a + b + c - 10000\<bar> :: rat) < of_int 2" by simp
  then have "\<bar>a + b + c - 10000\<bar> < 2" by (simp only: of_int_less_iff)
  then have "\<bar>a + b + c - 10000\<bar> \<le> 1" by simp
  then have "(of_int \<bar>a + b + c - 10000\<bar> :: rat) \<le> of_int 1" by (simp only: of_int_le_iff)
  then have s: "\<bar>(of_int a + of_int b + of_int c :: rat) - 10000\<bar> \<le> 1" by simp
  have k: "(3::rat) / 2 ^ 47 = 1 / 2 ^ 47 + 1 / 2 ^ 47 + 1 / 2 ^ 47" by simp
  show ?thesis
    unfolding k using a(1) b(1) c(1) s unfolding abs_le_iff by linarith
qed

text \<open>
  C8, as the code has it: for a non-empty history the three percentages of \<open>/stats\<close> are
  present, and their sum differs from 100 by at most \<open>0.01 + 3 * 2 ^ -47\<close>: the sum of
  the three two-decimal values is 99.99, 100 or 100.01, and each returned double is within
  \<open>2 ^ -47\<close> of its decimal.
\<close>

theorem stats_percentages_sum:
  "h \<noteq> [] \<Longrightarrow>
   \<exists>a b c. positive_percentage (stats fsum h) = Some a \<and>
     negative_percentage (stats fsum h) = Some b \<and>
     neutral_percentage (stats fsum h) = Some c \<and>
     \<bar>a + b + c - 100\<bar> \<le> 1 / 100 + 3 / 2 ^ 47"
proof -
  assume ne: "h \<noteq> []"
  define t :: rat where "t = of_nat (length h)"
  define x where "x = of_nat (count_sentiment Positive h) / t"
  define y where "y = of_nat (count_sentiment Negative h) / t"
  define z where "z = of_nat (count_sentiment Neutral h) / t"
  have t: "0 < t" using ne by (simp add: t_def)
  have "of_nat (count_sentiment Positive h) + of_nat (count_sentiment Negative h) +
      of_nat (count_sentiment Neutral h) = t"
    unfolding t_def by (simp only: of_nat_add [symmetric] count_sentiment_total)
  moreover have "x + y + z =
      (of_nat (count_sentiment Positive h) + of_nat (count_sentiment Negative h) +
       of_nat (count_sentiment Neutral h)) / t"
    unfolding x_def y_def z_def by (simp add: add_divide_distrib)
  ultimately have "x + y + z = t / t" by simp
  then have s: "x + y + z = 1" using t by simp
  have n: "0 \<le> x" "0 \<le> y" "0 \<le> z" using t by (simp_all add: x_def y_def z_def)
  have "\<bar>py_round (fmul (double x) 100) 2 + py_round (fmul (double y) 100) 2 +
    py_round (fmul (double z) 100) 2 - 100\<bar> \<le> 1 / 100 + 3 / 2 ^ 47"
    using n s by (rule three_percentages)
  moreover have "positive_percentage (stats fsum h) = Some (py_round (fmul (double x) 100) 2)"
    "negative_percentage (stats fsum h) = Some (py_round (fmul (double y) 100) 2)"
    "neutral_percentage (stats fsum h) = Some (py_round (fmul (double z) 100) 2)"
    using ne by (simp_all add: stats_def Let_def fdiv_def x_def y_def z_def t_def)
  ultimately show ?thesis by blast
qed

theorem stats_percentages_sum_witness:
  "\<exists>a b c.
      positive_percentage
        (stats sum_left [item 0 Positive, item 1 Negative, item 2 Neutral]) = Some a \<and>
      negative_percentage
        (stats sum_left [item 0 Positive, item 1 Negative, item 2 Neutral]) = Some b \<and>
      neutral_percentage
        (stats sum_left [item 0 Positive, item 1 Negative, item 2 Neutral]) = Some c \<and>
      \<bar>a + b + c - 100\<bar> \<le> 1 / 100 + 3 / 2 ^ 47"
proof -
  have a: "[item 0 Positive, item 1 Negative, item 2 Neutral] \<noteq> []" by simp
  show ?thesis
    using stats_percentages_sum [OF a] by blast
qed

text \<open>
  The tolerance \<open>0.01\<close> itself is missed: with one item of each sentiment the three
  percentages are the double \<open>33.33\<close>, and their sum is further than \<open>0.01\<close> from 100.
\<close>

theorem stats_thirds_counterexample:
  "positive_percentage (stats sum_left [item 0 Positive, item 1 Negative, item 2 Neutral]) =
     Some (double (3333 / 100)) \<and>
   negative_percentage (stats sum_left [item 0 Positive, item 1 Negative, item 2 Neutral]) =
     Some (double (3333 / 100)) \<and>
   neutral_percentage (stats sum_left [item 0 Positive, item 1 Negative, item 2 Neutral]) =
     Some (double (3333 / 100)) \<and>
   1 / 100 < \<bar>double (3333 / 100) + double (3333 / 100) + double (3333 / 100) - 100\<bar>"
proof -
  have c: "py_round (fmul (fdiv 1 3) 100) 2 = double (3333 / 100)" by code_simp
  have d: "1 / 100 < \<bar>double (3333 / 100) + double (3333 / 100) + double (3333 / 100) - 100\<bar>"
    by code_simp
  show ?thesis using d by (simp add: stats_def count_sentiment_def item_def c)
qed

lemma stats_empty:
  "stats fsum [] = \<lparr>total = 0, positive = 0, negative = 0, neutral = 0,
     positive_percentage = None, negative_percentage = None,
     neutral_percentage = None, average_confidence = None\<rparr>"
  by (simp add: stats_def)

section \<open>The analyze endpoint\<close>

lemma analyze_endpoint_no_call:
  "data = Falsy \<or> data = NotDict \<or>
   (\<exists>t m. data = Dict t m \<and>
      (isl (get_str t []) \<or> isl (get_str m (str_of ''textblob'')) \<or>
       strip (projr (get_str t [])) = [])) \<Longrightarrow>
   \<not> is_ok (fst (analyze_endpoint engine now data h)) \<and>
   snd (analyze_endpoint engine now data h) = h"
  by (auto simp: analyze_endpoint_def is_ok_def Let_def split: sum.splits)

lemma analyze_endpoint_call:
  assumes "get_str t [] = Inr raw" "get_str m (str_of ''textblob'') = Inr mraw"
    "strip raw \<noteq> []"
  shows "analyze_endpoint engine now (Dict t m) h =
     (case engine (strip raw)
        (if lower mraw \<notin> {str_of ''textblob'', str_of ''transformers''}
         then str_of ''textblob'' else lower mraw) of
        Inl ex \<Rightarrow> (Error500 ex, h)
      | Inr r \<Rightarrow>
          (Ok200 r (strip raw) now,
           store \<lparr>entry_text = take 100 (strip raw), entry_sentiment = sentiment r,
                  entry_confidence = confidence r, entry_timestamp = now\<rparr> h))"
  using assms by (simp add: analyze_endpoint_def Let_def)

lemma analyze_endpoint_outcome:
  "(\<not> is_ok (fst (analyze_endpoint engine now data h)) \<and>
      snd (analyze_endpoint engine now data h) = h) \<or>
   (\<exists>text mt r. engine text mt = Inr r \<and>
      analyze_endpoint engine now data h =
        (Ok200 r text now,
         store \<lparr>entry_text = take 100 text, entry_sentiment = sentiment r,
                entry_confidence = confidence r, entry_timestamp = now\<rparr> h))"
proof (cases "data = Falsy \<or> data = NotDict \<or>
   (\<exists>t m. data = Dict t m \<and>
      (isl (get_str t []) \<or> isl (get_str m (str_of ''textblob'')) \<or>
       strip (projr (get_str t [])) = []))")
  case True
  then show ?thesis using analyze_endpoint_no_call by blast
next
  case False
  then obtain t m where d: "data = Dict t m" by (cases data) auto
  from False d obtain raw mraw where g: "get_str t [] = Inr raw"
    "get_str m (str_of ''textblob'') = Inr mraw"
    by (cases "get_str t []"; cases "get_str m (str_of ''textblob'')") auto
  from False d g have s: "strip raw \<noteq> []" by auto
  define mt where "mt = (if lower mraw \<notin> {str_of ''textblob'', str_of ''transformers''}
         then str_of ''textblob'' else lower mraw)"
  have c: "analyze_endpoint engine now (Dict t m) h =
     (case engine (strip raw) mt of
        Inl ex \<Rightarrow> (Error500 ex, h)
      | Inr r \<Rightarrow>
          (Ok200 r (strip raw) now,
           store \<lparr>entry_text = take 100 (strip raw), entry_sentiment = sentiment r,
                  entry_confidence = confidence r, entry_timestamp = now\<rparr> h))"
    unfolding mt_def by (rule analyze_endpoint_call [OF g s])
  show ?thesis
  proof (cases "engine (strip raw) mt")
    case (Inl ex)
    then show ?thesis using c d by (simp add: is_ok_def)
  next
    case (Inr r)
    then show ?thesis using c d by auto
  qed
qed

lemma analyze_endpoint_length:
  "length h \<le> 100 \<Longrightarrow> length (snd (analyze_endpoint engine now data h)) \<le> 100"
  using analyze_endpoint_outcome [of engine now data h] by (auto simp: store_length)

text \<open>
  C9: a request to \<open>/analyze\<close> that does not end in the 200 response leaves
  \<open>analysis_history\<close> as it was; in particular, when \<open>analyze_sentiment\<close> raises, the
  response is not the 200 response and nothing is stored.  The append and the removal of
  the oldest item happen on the successful path only.
\<close>

theorem failed_request_keeps_history:
  "(\<not> is_ok (fst (analyze_endpoint engine now data h)) \<longrightarrow>
      snd (analyze_endpoint engine now data h) = h) \<and>
   ((\<forall>text mt. isl (engine text mt)) \<longrightarrow>
      \<not> is_ok (fst (analyze_endpoint engine now data h)) \<and>
      snd (analyze_endpoint engine now data h) = h)"
proof -
  have a: "\<not> is_ok (fst (analyze_endpoint engine now data h)) \<longrightarrow>
      snd (analyze_endpoint engine now data h) = h"
    using analyze_endpoint_outcome [of engine now data h] by (auto simp: is_ok_def)
  have b: "(\<forall>text mt. isl (engine text mt)) \<longrightarrow>
      \<not> is_ok (fst (analyze_endpoint engine now data h))"
  proof
    assume f: "\<forall>text mt. isl (engine text mt)"
    have "engine t mt \<noteq> Inr r" for t mt r
      using f by (metis sum.disc(2))
    then show "\<not> is_ok (fst (analyze_endpoint engine now data h))"
      using analyze_endpoint_outcome [of engine now data h] by blast
  qed
  from a b show ?thesis by blast
qed

theorem failed_request_keeps_history_witness:
  "\<not> is_ok (fst (analyze_endpoint failing_engine [110]
     (Dict (Some (JStr [104, 105])) None) [item 0 Positive])) \<and>
   snd (analyze_endpoint failing_engine [110]
     (Dict (Some (JStr [104, 105])) None) [item 0 Positive]) = [item 0 Positive]"
proof -
  have a: "\<forall>text mt. isl (failing_engine text mt)" by (simp add: failing_engine_def)
  show ?thesis
    using failed_request_keeps_history [of failing_engine "[110]"
        "Dict (Some (JStr [104, 105])) None" "[item 0 Positive]"] a
    by blast
qed

lemma failing_engine_response:
  "analyze_endpoint failing_engine [110] (Dict (Some (JStr [104, 105])) None) [item 0 Positive] =
     (Error500 ''RuntimeError'', [item 0 Positive])"
  by (simp add: analyze_endpoint_def get_str_def failing_engine_def strip_def is_space_def
      Let_def)

end
